theory Spec2Isabelle
  imports Complex_Main "HOL-Library.Log_Nat" "HOL-Library.Word"
begin

section \<open>JavaScript numbers\<close>

text \<open>
  Every \<open>number\<close> of protect-timeshift.ts is an IEEE 754 binary64 value. A finite one is
  kept as the rational it denotes; the two zeros are identified (a zero divisor acts as +0).
  Each arithmetic operation rounds its exact result to the nearest binary64 value, ties to
  even, as the hardware does.
\<close>

datatype number = NaN | PosInf | NegInf | Num rat

definition round_half_even :: "rat \<Rightarrow> int" where
  "round_half_even x =
     (let f = \<lfloor>x\<rfloor>; r = x - of_int f
      in if r < 1 / 2 then f else if 1 / 2 < r then f + 1 else if even f then f else f + 1)"

text \<open>For \<open>0 < a\<close>, \<open>ilog2 a\<close> is the exponent \<open>e\<close> with \<open>2^e \<le> a < 2^(e+1)\<close>.\<close>

definition ilog2 :: "rat \<Rightarrow> int" where
  "ilog2 a = (if 1 \<le> a then bitlen \<lfloor>a\<rfloor> - 1 else - bitlen (\<lceil>1 / a\<rceil> - 1))"

text \<open>
  \<open>fl x\<close> is the binary64 value nearest to the exact result \<open>x\<close>: a significand \<open>n\<close> of at
  most 53 bits scaled by \<open>2^q\<close>, where \<open>q\<close> is the exponent of the last place (never below
  \<open>-1074\<close>, the subnormal range). The result overflows to an infinity when the rounded value
  reaches \<open>2^1024\<close>, that is when \<open>971 < q\<close>, or \<open>q = 971\<close> and \<open>n\<close> was rounded up to \<open>2^53\<close>.
\<close>

definition fl :: "rat \<Rightarrow> number" where
  "fl x =
     (if x = 0 then Num 0
      else let a = \<bar>x\<bar>;
               q = max (ilog2 a - 52) (- 1074);
               n = round_half_even (a / 2 powi q)
           in if 971 < q \<or> (q = 971 \<and> 2 ^ 53 \<le> n) then (if 0 < x then PosInf else NegInf)
              else Num (sgn x * (of_int n * 2 powi q)))"

text \<open>
  The finite binary64 values: a significand of fewer than 54 bits, an exponent of the last
  place of at least \<open>-1074\<close>, a magnitude below \<open>2^1024\<close>.
\<close>

definition binary64 :: "rat \<Rightarrow> bool" where
  "binary64 x =
     (\<exists>n q. \<bar>n\<bar> < 2 ^ 53 \<and> - 1074 \<le> q \<and> \<bar>x\<bar> < 2 ^ 1024 \<and> x = of_int n * 2 powi q)"

text \<open>\<open>a / b\<close>\<close>

fun num_div :: "number \<Rightarrow> number \<Rightarrow> number" where
  "num_div NaN _ = NaN"
| "num_div _ NaN = NaN"
| "num_div (Num x) (Num y) =
     (if y \<noteq> 0 then fl (x / y) else if x = 0 then NaN else if 0 < x then PosInf else NegInf)"
| "num_div (Num x) _ = Num 0"
| "num_div PosInf (Num y) = (if 0 \<le> y then PosInf else NegInf)"
| "num_div NegInf (Num y) = (if 0 \<le> y then NegInf else PosInf)"
| "num_div _ _ = NaN"

text \<open>\<open>a * b\<close>\<close>

fun num_mul :: "number \<Rightarrow> number \<Rightarrow> number" where
  "num_mul NaN _ = NaN"
| "num_mul _ NaN = NaN"
| "num_mul (Num x) (Num y) = fl (x * y)"
| "num_mul (Num x) PosInf = (if x = 0 then NaN else if 0 < x then PosInf else NegInf)"
| "num_mul (Num x) NegInf = (if x = 0 then NaN else if 0 < x then NegInf else PosInf)"
| "num_mul PosInf (Num y) = (if y = 0 then NaN else if 0 < y then PosInf else NegInf)"
| "num_mul NegInf (Num y) = (if y = 0 then NaN else if 0 < y then NegInf else PosInf)"
| "num_mul PosInf PosInf = PosInf"
| "num_mul NegInf NegInf = PosInf"
| "num_mul _ _ = NegInf"

text \<open>\<open>a < b\<close>; a comparison with NaN is false.\<close>

fun num_less :: "number \<Rightarrow> number \<Rightarrow> bool" where
  "num_less NaN _ = False"
| "num_less _ NaN = False"
| "num_less (Num x) (Num y) = (x < y)"
| "num_less NegInf b = (b \<noteq> NegInf)"
| "num_less a PosInf = (a \<noteq> PosInf)"
| "num_less _ _ = False"

text \<open>\<open>a <= b\<close>\<close>

definition num_le :: "number \<Rightarrow> number \<Rightarrow> bool" where
  "num_le a b = (a \<noteq> NaN \<and> b \<noteq> NaN \<and> (a = b \<or> num_less a b))"

text \<open>\<open>a > b\<close> and \<open>a >= b\<close>\<close>

definition num_greater :: "number \<Rightarrow> number \<Rightarrow> bool" where
  "num_greater a b = num_less b a"

definition num_ge :: "number \<Rightarrow> number \<Rightarrow> bool" where
  "num_ge a b = num_le b a"

text \<open>A number used as a condition: \<open>0\<close> and \<open>NaN\<close> are falsy.\<close>

definition truthy :: "number \<Rightarrow> bool" where
  "truthy a = (a \<noteq> NaN \<and> a \<noteq> Num 0)"

text \<open>The \<open>length\<close> of an array, as a number.\<close>

definition array_length :: "'a list \<Rightarrow> number" where
  "array_length xs = Num (of_nat (length xs))"

text \<open>
  \<open>Array.prototype.slice(start)\<close> with one argument: \<open>start\<close> goes through
  ToIntegerOrInfinity (NaN is 0, a fraction is truncated towards zero); a negative index counts
  from the end, and the index is clamped to the array. The elements from that index to the end
  are returned.
\<close>

definition array_slice :: "'a list \<Rightarrow> number \<Rightarrow> 'a list" where
  "array_slice xs start =
     (let len = int (length xs);
          k = (case start of
                 NaN \<Rightarrow> 0
               | PosInf \<Rightarrow> len
               | NegInf \<Rightarrow> 0
               | Num x \<Rightarrow>
                   (let r = (if x < 0 then \<lceil>x\<rceil> else \<lfloor>x\<rfloor>)
                    in if r < 0 then max (len + r) 0 else min r len))
      in drop (nat k) xs)"

section \<open>The livestream handle and its listeners\<close>

type_synonym bytes = "8 word list"

type_synonym handle = nat

text \<open>
  The functions stored in \<open>eventHandlers\<close>: the segment handler is created once, in the
  constructor; every call of \<open>configureTimeshiftBuffer\<close> creates a new close handler, a
  function distinct from the earlier ones.
\<close>

datatype listener = SegmentHandler | CloseHandler nat

text \<open>
  A \<open>ProtectLivestream\<close>, as far as the timeshift buffer sees it: its initialization segment
  and the listeners attached to it, in the order they were attached.
\<close>

record livestream_obj =
  initSegment :: "bytes option"
  listeners :: "(string \<times> listener) list"

text \<open>\<open>EventEmitter.on\<close> appends the listener, without looking for duplicates.\<close>

definition emitter_on :: "string \<Rightarrow> listener \<Rightarrow> livestream_obj \<Rightarrow> livestream_obj" where
  "emitter_on ev l obj = obj\<lparr>listeners := listeners obj @ [(ev, l)]\<rparr>"

text \<open>\<open>EventEmitter.off\<close> removes at most one instance of the listener, the one added last.\<close>

definition emitter_off :: "string \<Rightarrow> listener \<Rightarrow> livestream_obj \<Rightarrow> livestream_obj" where
  "emitter_off ev l obj = obj\<lparr>listeners := rev (remove1 (ev, l) (rev (listeners obj)))\<rparr>"

text \<open>The listeners that an event of the given name reaches.\<close>

definition listeners_of :: "string \<Rightarrow> livestream_obj \<Rightarrow> listener list" where
  "listeners_of ev obj = map snd (filter (\<lambda>p. fst p = ev) (listeners obj))"

section \<open>The timeshift buffer\<close>

text \<open>Calls into the collaborators, in the order they are made.\<close>

datatype call =
    LivestreamAcquire nat "nat option"
  | LivestreamStart nat "nat option" number
  | LivestreamStop nat "nat option"
  | ResetNvrConnection
  | LogError

text \<open>
  The fields of \<open>ProtectTimeshiftBuffer\<close> (the private ones prefixed \<open>priv_\<close> where the
  class has a getter of the same name), followed by what the object acts on: the livestream
  handles, the "segment" events the object has emitted to its own subscribers, the calls made
  to collaborators, and the number of close handlers created so far.
\<close>

record timeshift =
  priv_buffer :: "bytes list"
  priv_channel :: nat
  priv_isStarted :: bool
  priv_isTransmitting :: bool
  priv_lens :: "nat option"
  priv_segmentLength :: number
  bufferSize :: number
  livestream :: "handle option"
  eventHandlers :: "(string \<times> listener) list"
  handles :: "handle \<Rightarrow> livestream_obj"
  emitted :: "bytes list"
  calls :: "call list"
  closures :: nat

text \<open>
  What the collaborators answer during one call: the constant of settings.js, the fragment
  length of the HKSV recording configuration (when there is one), the results of
  \<open>livestream.acquire\<close> and \<open>livestream.start\<close>, and the initialization segment the handle
  holds once \<open>sleep(2000)\<close> is over.
\<close>

record environment =
  PROTECT_HKSV_SEGMENT_RESOLUTION :: number
  fragmentLength :: "number option"
  acquire_result :: "handle option"
  start_result :: bool
  initSegment_after_sleep :: "bytes option"

definition isStarted :: "timeshift \<Rightarrow> bool" where
  "isStarted st = priv_isStarted st"

definition isTransmitting :: "timeshift \<Rightarrow> bool" where
  "isTransmitting st = priv_isTransmitting st"

definition segmentLength :: "timeshift \<Rightarrow> number" where
  "segmentLength st = priv_segmentLength st"

definition channel :: "timeshift \<Rightarrow> nat" where
  "channel st = priv_channel st"

definition lens :: "timeshift \<Rightarrow> nat option" where
  "lens st = priv_lens st"

text \<open>
  The constructor; \<open>resolution\<close> is the constant \<open>PROTECT_HKSV_SEGMENT_RESOLUTION\<close> of
  settings.js, and \<open>lens0\<close> is the first lens of a package camera, or \<open>None\<close>.
\<close>

definition constructor :: "number \<Rightarrow> nat option \<Rightarrow> (handle \<Rightarrow> livestream_obj) \<Rightarrow> timeshift" where
  "constructor resolution lens0 hs =
     \<lparr>priv_buffer = [], priv_channel = 0, priv_isStarted = False, priv_isTransmitting = False,
      priv_lens = lens0, priv_segmentLength = resolution, bufferSize = Num 1,
      livestream = None, eventHandlers = [(''segment'', SegmentHandler)],
      handles = hs, emitted = [], calls = [], closures = 0\<rparr>"

text \<open>\<open>transmit\<close>: emit the whole buffer as one "segment" event, then clear it.\<close>

definition transmit :: "timeshift \<Rightarrow> timeshift" where
  "transmit st = st\<lparr>emitted := emitted st @ [concat (priv_buffer st)], priv_buffer := []\<rparr>"

text \<open>\<open>eventHandlers.segment\<close>; \<open>Array.prototype.shift\<close> leaves an empty array empty.\<close>

definition segment_handler :: "bytes \<Rightarrow> timeshift \<Rightarrow> timeshift" where
  "segment_handler segment st =
     (let st1 = st\<lparr>priv_buffer := priv_buffer st @ [segment]\<rparr>;
          st2 = (if num_le (bufferSize st1) (Num 0) then st1\<lparr>bufferSize := Num 1\<rparr> else st1);
          st3 = (if \<not> isTransmitting st2
                    \<and> num_greater (array_length (priv_buffer st2)) (bufferSize st2)
                 then st2\<lparr>priv_buffer := tl (priv_buffer st2)\<rparr> else st2)
      in if isTransmitting st3 then transmit st3 else st3)"

text \<open>Assignment to a property of \<open>eventHandlers\<close>: a new key goes last, an old one keeps its place.\<close>

fun set_handler :: "string \<Rightarrow> listener \<Rightarrow> (string \<times> listener) list \<Rightarrow> (string \<times> listener) list" where
  "set_handler k v [] = [(k, v)]"
| "set_handler k v (p # ps) = (if fst p = k then (k, v) # ps else p # set_handler k v ps)"

text \<open>
  \<open>configureTimeshiftBuffer\<close>: with a livestream, create a close handler, store it in
  \<open>eventHandlers.close\<close> and attach it, then attach \<open>eventHandlers.segment\<close>. The constructor
  stored the segment handler and nothing removes it, so the lookup finds it.
\<close>

definition configureTimeshiftBuffer :: "timeshift \<Rightarrow> timeshift" where
  "configureTimeshiftBuffer st =
     (case livestream st of
        None \<Rightarrow> st
      | Some h \<Rightarrow>
          (let c = CloseHandler (closures st);
               st1 = st\<lparr>eventHandlers := set_handler ''close'' c (eventHandlers st),
                        closures := Suc (closures st)\<rparr>;
               obj1 = emitter_on ''close'' c (handles st1 h);
               obj2 = (case map_of (eventHandlers st1) ''segment'' of
                         None \<Rightarrow> obj1
                       | Some l \<Rightarrow> emitter_on ''segment'' l obj1)
           in st1\<lparr>handles := (handles st1)(h := obj2)\<rparr>))"

text \<open>
  \<open>Object.keys(this.eventHandlers).map(eventName => this.livestream?.off(eventName, ...))\<close>
\<close>

definition detach_handlers :: "timeshift \<Rightarrow> timeshift" where
  "detach_handlers st =
     (case livestream st of
        None \<Rightarrow> st
      | Some h \<Rightarrow>
          st\<lparr>handles := (handles st)
                (h := foldl (\<lambda>obj p. emitter_off (fst p) (snd p) obj) (handles st h)
                        (eventHandlers st))\<rparr>)"

definition stop :: "timeshift \<Rightarrow> bool \<times> timeshift" where
  "stop st =
     (let st1 = (if isStarted st
                 then detach_handlers
                        (st\<lparr>calls := calls st @ [LivestreamStop (priv_channel st) (priv_lens st)]\<rparr>)
                 else st)
      in (True, st1\<lparr>priv_buffer := [], priv_isStarted := False\<rparr>))"

text \<open>
  \<open>start(channelId = this._channel, lens = this._lens)\<close>; an argument that is \<open>None\<close> takes its
  default.
\<close>

definition start :: "environment \<Rightarrow> nat option \<Rightarrow> nat option \<Rightarrow> timeshift \<Rightarrow> bool \<times> timeshift" where
  "start env channelArg lensArg st0 =
     (let lens1 = (case lensArg of None \<Rightarrow> priv_lens st0 | Some l \<Rightarrow> Some l);
          channelId = (if lens1 \<noteq> None then 0
                       else (case channelArg of None \<Rightarrow> priv_channel st0 | Some c \<Rightarrow> c));
          st1 = (if isStarted st0 then snd (stop st0) else st0);
          st2 = (case fragmentLength env of
                   None \<Rightarrow> st1
                 | Some f \<Rightarrow>
                     if truthy f
                        \<and> (num_less (segmentLength st1) (Num 100)
                           \<or> num_greater (segmentLength st1) (Num 1500)
                           \<or> num_greater (segmentLength st1) (num_div f (Num 2)))
                     then st1\<lparr>priv_segmentLength := PROTECT_HKSV_SEGMENT_RESOLUTION env\<rparr>
                     else st1);
          st3 = st2\<lparr>priv_buffer := [], livestream := acquire_result env,
                   calls := calls st2 @ [LivestreamAcquire channelId lens1]\<rparr>
      in case livestream st3 of
           None \<Rightarrow> (False, st3)
         | Some h \<Rightarrow>
             (let st4 = configureTimeshiftBuffer st3;
                  st5 = st4\<lparr>calls := calls st4
                              @ [LivestreamStart channelId lens1 (segmentLength st4)]\<rparr>
              in if \<not> start_result env then (False, st5)
                 else (True, st5\<lparr>priv_channel := channelId, priv_lens := lens1,
                                 priv_isStarted := True\<rparr>)))"

text \<open>
  \<open>getInitSegment\<close>: the segment the livestream holds, or, after the sleep, whatever it holds
  then.
\<close>

definition getInitSegment :: "environment \<Rightarrow> timeshift \<Rightarrow> bytes option \<times> timeshift" where
  "getInitSegment env st =
     (case livestream st of
        None \<Rightarrow> (None, st)
      | Some h \<Rightarrow>
          (case initSegment (handles st h) of
             Some seg \<Rightarrow> (Some seg, st)
           | None \<Rightarrow>
               (let st1 = st\<lparr>handles := (handles st)
                            (h := (handles st h)\<lparr>initSegment := initSegment_after_sleep env\<rparr>)\<rparr>
                in (initSegment (handles st1 h), st1))))"

definition transmitStart :: "environment \<Rightarrow> timeshift \<Rightarrow> bool \<times> timeshift" where
  "transmitStart env st =
     (let (ok, st1) = (if \<not> isStarted st then start env None None st else (True, st))
      in if \<not> ok
         then (False, st1\<lparr>calls := calls st1 @ [LogError, ResetNvrConnection]\<rparr>)
         else (let (initSeg, st2) = getInitSegment env st1
               in case initSeg of
                    Some seg \<Rightarrow>
                      (let st3 = st2\<lparr>priv_buffer := seg # priv_buffer st2\<rparr>;
                           st4 = transmit st3
                       in (True, st4\<lparr>priv_isTransmitting := True\<rparr>))
                  | None \<Rightarrow>
                      (False, st2\<lparr>calls := calls st2 @ [LogError, ResetNvrConnection]\<rparr>)))"

definition transmitStop :: "timeshift \<Rightarrow> bool \<times> timeshift" where
  "transmitStop st = (True, st\<lparr>priv_isTransmitting := False\<rparr>)"

text \<open>The initialization segment of the current livestream, \<open>this.livestream?.initSegment\<close>.\<close>

definition current_initSegment :: "timeshift \<Rightarrow> bytes option" where
  "current_initSegment st =
     (case livestream st of None \<Rightarrow> None | Some h \<Rightarrow> initSegment (handles st h))"

text \<open>The getter \<open>buffer\<close>; a \<open>Buffer\<close> object is truthy whatever it holds.\<close>

definition buffer :: "timeshift \<Rightarrow> bytes option" where
  "buffer st =
     (case current_initSegment st of
        None \<Rightarrow> None
      | Some init \<Rightarrow>
          if truthy (array_length (priv_buffer st))
          then Some (concat (init # priv_buffer st)) else None)"

definition getLast :: "number \<Rightarrow> timeshift \<Rightarrow> bytes option" where
  "getLast duration st =
     (let start = num_div duration (segmentLength st)
      in if num_ge start (array_length (priv_buffer st)) then buffer st
         else (case current_initSegment st of
                 None \<Rightarrow> None
               | Some init \<Rightarrow>
                   if truthy (array_length (priv_buffer st))
                   then Some (concat (init # array_slice (priv_buffer st) start)) else None))"

text \<open>The getter and the setter \<open>length\<close>.\<close>

definition length_get :: "timeshift \<Rightarrow> number" where
  "length_get st = num_mul (bufferSize st) (segmentLength st)"

definition length_set :: "number \<Rightarrow> timeshift \<Rightarrow> timeshift" where
  "length_set bufferMillis st = st\<lparr>bufferSize := num_div bufferMillis (segmentLength st)\<rparr>"

section \<open>Events of the source and sequences of calls\<close>

text \<open>A listener called with the payload of an event; the close handler logs and stops.\<close>

fun invoke :: "bytes \<Rightarrow> timeshift \<Rightarrow> listener \<Rightarrow> timeshift" where
  "invoke payload st SegmentHandler = segment_handler payload st"
| "invoke payload st (CloseHandler k) = snd (stop (st\<lparr>calls := calls st @ [LogError]\<rparr>))"

text \<open>
  The source emits an event on a handle: every listener attached under that name when the
  event is emitted is called, in the order of attachment.
\<close>

definition source_emit :: "handle \<Rightarrow> string \<Rightarrow> bytes \<Rightarrow> timeshift \<Rightarrow> timeshift" where
  "source_emit h ev payload st = foldl (invoke payload) st (listeners_of ev (handles st h))"

datatype action =
    Start environment "nat option" "nat option"
  | Stop
  | TransmitStart environment
  | TransmitStop
  | SetLength number
  | SourceSegment handle bytes
  | SourceClose handle

fun step :: "timeshift \<Rightarrow> action \<Rightarrow> timeshift" where
  "step st (Start env c l) = snd (start env c l st)"
| "step st Stop = snd (stop st)"
| "step st (TransmitStart env) = snd (transmitStart env st)"
| "step st TransmitStop = snd (transmitStop st)"
| "step st (SetLength m) = length_set m st"
| "step st (SourceSegment h seg) = source_emit h ''segment'' seg st"
| "step st (SourceClose h) = source_emit h ''close'' [] st"

definition run :: "timeshift \<Rightarrow> action list \<Rightarrow> timeshift" where
  "run st as = foldl step st as"

text \<open>The segments arriving one after the other at the segment handler.\<close>

definition arrivals :: "bytes list \<Rightarrow> timeshift \<Rightarrow> timeshift" where
  "arrivals segs st = foldl (\<lambda>s seg. segment_handler seg s) st segs"

section \<open>Concrete sessions\<close>

text \<open>A source whose handles hold the given initialization segment and have no listeners yet.\<close>

definition fresh_source :: "bytes option \<Rightarrow> handle \<Rightarrow> livestream_obj" where
  "fresh_source init = (\<lambda>h. \<lparr>initSegment = init, listeners = []\<rparr>)"

text \<open>
  Collaborators with a segment resolution of 100 ms and a fragment length of 4000 ms, where
  \<open>acquire\<close> returns handle 0, \<open>livestream.start\<close> answers \<open>ok\<close>, and no initialization
  segment turns up during the sleep.
\<close>

definition answers :: "bool \<Rightarrow> environment" where
  "answers ok =
     \<lparr>PROTECT_HKSV_SEGMENT_RESOLUTION = Num 100, fragmentLength = Some (Num 4000),
      acquire_result = Some 0, start_result = ok, initSegment_after_sleep = None\<rparr>"

text \<open>
  Segment duration 100 ms, length set to 500 ms, a successful start, and the arrivals
  \<open>S1, ..., S7\<close> (the one-byte segments 1 to 7); the initialization segment is the byte 170.
\<close>

definition seven_arrivals :: timeshift where
  "seven_arrivals =
     run (constructor (Num 100) None (fresh_source (Some [170])))
       [SetLength (Num 500), Start (answers True) None None,
        SourceSegment 0 [1], SourceSegment 0 [2], SourceSegment 0 [3], SourceSegment 0 [4],
        SourceSegment 0 [5], SourceSegment 0 [6], SourceSegment 0 [7]]"

text \<open>A session that is started and transmitting.\<close>

definition transmitting_session :: timeshift where
  "transmitting_session =
     run (constructor (Num 100) None (fresh_source (Some [170])))
       [Start (answers True) None None, SourceSegment 0 [1], TransmitStart (answers True)]"

text \<open>A started session whose source has no initialization segment.\<close>

definition started_without_init :: timeshift where
  "started_without_init =
     run (constructor (Num 100) None (fresh_source None)) [Start (answers True) None None]"

section \<open>The rounding function\<close>

text \<open>
  What makes \<open>fl\<close> the rounding of binary64: \<open>ilog2\<close> is the binary exponent; every
  binary64 value is left as it is; and a finite result is a value \<open>n * 2^q\<close> with a
  significand of at most \<open>2^53\<close>, at most half a unit in the last place away from the
  exact one.
\<close>

lemma two_powi_neg: "0 \<le> n \<Longrightarrow> (2::rat) powi (- n) = 1 / 2 ^ nat n"
  by (simp add: power_int_minus power_int_def inverse_eq_divide power_one_over)


lemma round_half_even_error: "\<bar>of_int (round_half_even x) - x\<bar> \<le> 1 / 2"
  unfolding round_half_even_def Let_def
  by (auto simp: abs_if) linarith+


lemma ilog2_upper:
  assumes "0 < a"
  shows "a < 2 powi (ilog2 a + 1)"
proof (cases "1 \<le> a")
  case True
  then have k: "0 < \<lfloor>a\<rfloor>" by linarith
  have b: "1 \<le> bitlen \<lfloor>a\<rfloor>" using k by (simp add: bitlen_alt_def)
  from bitlen_bounds [OF k] have "\<lfloor>a\<rfloor> + 1 \<le> 2 ^ nat (bitlen \<lfloor>a\<rfloor>)" by simp
  then have "(of_int (\<lfloor>a\<rfloor> + 1) :: rat) \<le> of_int (2 ^ nat (bitlen \<lfloor>a\<rfloor>))"
    by (simp only: of_int_le_iff)
  moreover have "a < of_int (\<lfloor>a\<rfloor> + 1)" by linarith
  ultimately have "a < 2 ^ nat (bitlen \<lfloor>a\<rfloor>)" by simp
  then show ?thesis using True b by (simp add: ilog2_def power_int_def)
next
  case False
  let ?j = "\<lceil>1 / a\<rceil> - 1"
  from False assms have y: "1 < 1 / a" by (simp add: field_simps)
  then have j: "0 < ?j" by linarith
  have b: "1 \<le> bitlen ?j" using j by (simp add: bitlen_alt_def)
  from bitlen_bounds [OF j] have "2 ^ nat (bitlen ?j - 1) \<le> ?j" by simp
  then have "(of_int (2 ^ nat (bitlen ?j - 1)) :: rat) \<le> of_int ?j"
    by (simp only: of_int_le_iff)
  moreover have "of_int ?j < 1 / a" by linarith
  ultimately have lt: "2 ^ nat (bitlen ?j - 1) < 1 / a" by simp
  then have "a < 1 / 2 ^ nat (bitlen ?j - 1)" using assms
    by (simp add: field_simps)
  moreover have "(2::rat) powi (- bitlen ?j + 1) = 1 / 2 ^ nat (bitlen ?j - 1)"
    using b two_powi_neg [of "bitlen ?j - 1"] by simp
  ultimately show ?thesis using False by (simp add: ilog2_def)
qed





lemma binary64_of_int:
  assumes "\<bar>k\<bar> < 2 ^ 53"
  shows "binary64 (of_int k)"
proof -
  from assms have "(of_int \<bar>k\<bar> :: rat) < of_int (2 ^ 53)" by (simp only: of_int_less_iff)
  then have "\<bar>of_int k :: rat\<bar> < 2 ^ 53" by simp
  also have "\<dots> < 2 ^ 1024" by simp
  finally have "\<bar>of_int k :: rat\<bar> < 2 ^ 1024" .
  moreover have "(of_int k :: rat) = of_int k * 2 powi 0" by simp
  moreover have "- 1074 \<le> (0::int)" by simp
  ultimately show ?thesis unfolding binary64_def using assms by blast
qed

lemma fl_nearest:
  assumes "fl x = Num y"
  shows "\<exists>n q. y = of_int n * 2 powi q \<and> \<bar>n\<bar> \<le> 2 ^ 53 \<and> - 1074 \<le> q
           \<and> \<bar>y - x\<bar> \<le> 2 powi q / 2"
proof (cases "x = 0")
  case True
  with assms have "y = of_int 0 * 2 powi 0" by (simp add: fl_def)
  with True show ?thesis by (intro exI [of _ 0]) simp
next
  case False
  define a where "a = \<bar>x\<bar>"
  define e where "e = ilog2 a"
  define q where "q = max (e - 52) (- 1074)"
  define t where "t = a / 2 powi q"
  define n where "n = round_half_even t"
  have pos: "0 < a" using False by (simp add: a_def)
  have y: "y = sgn x * (of_int n * 2 powi q)"
    using assms False
    by (simp add: fl_def Let_def a_def [symmetric] e_def [symmetric] q_def [symmetric]
        t_def [symmetric] n_def [symmetric] split: if_splits)
  have err: "\<bar>of_int n - t\<bar> \<le> 1 / 2" unfolding n_def by (rule round_half_even_error)
  have t0: "0 \<le> t" using pos by (simp add: t_def)
  have "a < 2 powi (e + 1)" unfolding e_def by (rule ilog2_upper [OF pos])
  also have "\<dots> \<le> 2 powi (q + 53)" by (intro power_int_increasing) (auto simp: q_def)
  also have "\<dots> = 2 powi q * 2 ^ 53" by (simp add: power_int_add)
  finally have t53: "t < 2 ^ 53" by (simp add: t_def field_simps)
  from err t0 have "- 1 < (of_int n :: rat)" by linarith
  then have "(of_int (- 1) :: rat) < of_int n" by simp
  then have n0: "0 \<le> n" by (simp only: of_int_less_iff)
  from err t53 have "(of_int n :: rat) < 2 ^ 53 + 1" by linarith
  then have "(of_int n :: rat) < of_int (2 ^ 53 + 1)" by simp
  then have n53: "n \<le> 2 ^ 53" by (simp only: of_int_less_iff)
  have sx: "sgn x * a = x" by (simp add: a_def sgn_mult_abs)
  have "t * 2 powi q = a" by (simp add: t_def)
  then have "sgn x * ((of_int n - t) * 2 powi q) = sgn x * (of_int n * 2 powi q) - sgn x * a"
    by (simp add: algebra_simps)
  also have "\<dots> = y - x" by (simp only: y sx)
  finally have "y - x = sgn x * ((of_int n - t) * 2 powi q)" by simp
  then have "\<bar>y - x\<bar> = \<bar>of_int n - t\<bar> * 2 powi q"
    using False by (simp add: abs_mult abs_sgn_eq)
  also have "\<dots> \<le> 1 / 2 * 2 powi q" using err by (intro mult_right_mono) auto
  finally have bound: "\<bar>y - x\<bar> \<le> 2 powi q / 2" by simp
  have "y = of_int ((if 0 < x then 1 else - 1) * n) * 2 powi q"
    using False by (simp add: y sgn_if)
  moreover have "\<bar>(if 0 < x then 1 else - 1) * n\<bar> \<le> 2 ^ 53" using n0 n53 by (simp add: abs_mult)
  moreover have "- 1074 \<le> q" by (simp add: q_def)
  ultimately show ?thesis using bound by blast
qed








text \<open>
  With segments of 100 ms the quotients of 1, 10 and 33 are rounded, and the length read back
  is the length set all the same: the rounding of the product undoes that of the quotient.
\<close>

lemma length_roundtrip_rounded_quotients:
  "length_get (length_set (Num 1) (constructor (Num 100) None (fresh_source None))) = Num 1
   \<and> length_get (length_set (Num 10) (constructor (Num 100) None (fresh_source None))) = Num 10
   \<and> length_get (length_set (Num 33) (constructor (Num 100) None (fresh_source None))) = Num 33
   \<and> bufferSize (length_set (Num 33) (constructor (Num 100) None (fresh_source None)))
       \<noteq> Num (33 / 100)"
  unfolding fresh_source_def by code_simp

section \<open>The segment handler while buffering\<close>

lemma segment_handler_buffering:
  assumes "\<not> isTransmitting st" and "bufferSize st = Num (of_nat C)" and "1 \<le> C"
  shows "segment_handler seg st =
           st\<lparr>priv_buffer := (if C < Suc (length (priv_buffer st))
                                then tl (priv_buffer st @ [seg]) else priv_buffer st @ [seg])\<rparr>"
  using assms
  by (simp add: segment_handler_def Let_def isTransmitting_def num_le_def num_greater_def
      array_length_def)

lemma arrivals_Cons: "arrivals (seg # segs) st = arrivals segs (segment_handler seg st)"
  by (simp add: arrivals_def)

text \<open>
  From a store within its capacity, the arrivals leave the last \<open>C\<close> of the old content
  followed by the new segments.
\<close>

lemma arrivals_buffering:
  assumes "\<not> isTransmitting st" and "bufferSize st = Num (of_nat C)" and "1 \<le> C"
    and "length (priv_buffer st) \<le> C"
  shows "priv_buffer (arrivals segs st) =
           drop (length (priv_buffer st @ segs) - C) (priv_buffer st @ segs)"
  using assms
proof (induction segs arbitrary: st)
  case Nil
  then show ?case by (simp add: arrivals_def)
next
  case (Cons seg segs)
  let ?st' = "segment_handler seg st"
  have step: "?st' = st\<lparr>priv_buffer := (if C < Suc (length (priv_buffer st))
                                then tl (priv_buffer st @ [seg]) else priv_buffer st @ [seg])\<rparr>"
    using Cons.prems by (simp add: segment_handler_buffering)
  have inv: "\<not> isTransmitting ?st'" "bufferSize ?st' = Num (of_nat C)"
    "length (priv_buffer ?st') \<le> C"
    using Cons.prems by (auto simp: step isTransmitting_def)
  have IH: "priv_buffer (arrivals segs ?st') =
           drop (length (priv_buffer ?st' @ segs) - C) (priv_buffer ?st' @ segs)"
    using Cons.IH [OF inv(1) inv(2) Cons.prems(3) inv(3)] .
  show ?case
  proof (cases "C < Suc (length (priv_buffer st))")
    case True
    with Cons.prems have len: "length (priv_buffer st) = C" by simp
    with Cons.prems obtain b bs where b: "priv_buffer st = b # bs"
      by (cases "priv_buffer st") auto
    from len b have C: "C = Suc (length bs)" by simp
    from True have "priv_buffer ?st' = bs @ [seg]" by (simp add: step b)
    then show ?thesis by (simp add: arrivals_Cons IH b C)
  next
    case False
    then have "priv_buffer ?st' = priv_buffer st @ [seg]" by (simp add: step)
    then show ?thesis by (simp add: arrivals_Cons IH)
  qed
qed

section \<open>What the code does where it departs from its comments\<close>

text \<open>
  For a quotient \<open>x\<close> within the store, \<open>getLast\<close> returns the store without its first
  \<open>floor x\<close> segments.
\<close>

lemma getLast_drops_front:
  assumes "current_initSegment st = Some init"
    and "num_div d (segmentLength st) = Num x"
    and "0 \<le> x" and "x < of_nat (length (priv_buffer st))"
  shows "getLast d st = Some (init @ concat (drop (nat \<lfloor>x\<rfloor>) (priv_buffer st)))"
proof -
  from assms(3,4) have len: "priv_buffer st \<noteq> []" by auto
  have "\<lfloor>x\<rfloor> < int (length (priv_buffer st))" using assms(4) by (simp add: floor_less_iff)
  moreover have "0 \<le> \<lfloor>x\<rfloor>" using assms(3) by simp
  ultimately have "array_slice (priv_buffer st) (Num x) = drop (nat \<lfloor>x\<rfloor>) (priv_buffer st)"
    using assms(3) by (simp add: array_slice_def Let_def min_def)
  then show ?thesis
    using assms len
    by (simp add: getLast_def Let_def num_ge_def num_le_def array_length_def truthy_def)
qed

text \<open>A capacity strictly between 0 and 1 is not raised to 1: every arrival evicts.\<close>

lemma fractional_capacity_evicts:
  assumes "\<not> isTransmitting st" and "bufferSize st = Num q" and "0 < q" and "q < 1"
  shows "priv_buffer (segment_handler seg st) = tl (priv_buffer st @ [seg])"
proof -
  have "q < of_nat (Suc (length (priv_buffer st)))"
    using assms(4) by (simp add: add_strict_increasing2)
  then show ?thesis
    using assms
    by (simp add: segment_handler_def Let_def isTransmitting_def num_le_def num_greater_def
        array_length_def)
qed

lemma map_of_set_handler:
  "k' \<noteq> k \<Longrightarrow> map_of (set_handler k v ps) k' = map_of ps k'"
  by (induction ps) auto

text \<open>
  A start that acquires a handle and then fails at \<open>livestream.start\<close> leaves the segment
  handler on that handle.
\<close>

lemma start_failure_leaks:
  assumes "acquire_result env = Some h" and "\<not> start_result env"
    and "map_of (eventHandlers st) ''segment'' = Some l"
  shows "\<not> fst (start env c a st)
         \<and> (''segment'', l) \<in> set (listeners (handles (snd (start env c a st)) h))"
proof -
  have eh: "eventHandlers (snd (stop st)) = eventHandlers st"
    by (simp add: stop_def Let_def detach_handlers_def split: option.splits)
  show ?thesis
    using assms
    by (simp add: start_def Let_def configureTimeshiftBuffer_def emitter_on_def eh
        map_of_set_handler split: option.splits)
qed

section \<open>The claims\<close>

text \<open>
  Claim C1 (code defect). The claim: when \<open>floor(d / segmentLength)\<close> is below the number of
  stored segments and the initialization segment is known, \<open>getLast(d)\<close> returns the
  initialization segment followed by the last \<open>count\<close> segments; with segment duration 100 ms,
  capacity 5 and the store \<open>[S3, ..., S7]\<close>, \<open>getLast(250)\<close> returns the artifact and
  \<open>[S6, S7]\<close>. The code calls \<open>slice(start)\<close>, which drops the first \<open>start\<close> segments: in
  that very session it returns the artifact followed by \<open>[S5, S6, S7]\<close>.
\<close>

theorem getLast_slices_from_front:
  "priv_buffer seven_arrivals = [[3], [4], [5], [6], [7]]
   \<and> getLast (Num 250) seven_arrivals = Some [170, 5, 6, 7]
   \<and> getLast (Num 250) seven_arrivals \<noteq> Some [170, 6, 7]"
  unfolding seven_arrivals_def answers_def fresh_source_def by code_simp

text \<open>
  Claim C2. After \<open>N\<close> arrivals handled while buffering with an integer capacity \<open>C \<ge> 1\<close>,
  the store (empty before the first arrival, as \<open>start\<close> leaves it) holds exactly
  \<open>min N C\<close> segments: the last \<open>min N C\<close> arrivals, oldest first.
\<close>

theorem buffering_keeps_most_recent:
  assumes "\<not> isTransmitting st" and "bufferSize st = Num (of_nat C)" and "1 \<le> C"
    and "priv_buffer st = []"
  shows "priv_buffer (arrivals segs st) = drop (length segs - min (length segs) C) segs
         \<and> length (priv_buffer (arrivals segs st)) = min (length segs) C"
proof -
  have "priv_buffer (arrivals segs st) = drop (length segs - C) segs"
    using arrivals_buffering [OF assms(1) assms(2) assms(3), of segs] assms(4) by simp
  moreover have "length segs - min (length segs) C = length segs - C" by simp
  ultimately show ?thesis by auto
qed

theorem buffering_keeps_most_recent_witness:
  "priv_buffer
     (arrivals [[1], [2], [3]]
        (length_set (Num 200) (constructor (Num 100) None (fresh_source None))))
   = [[2], [3]]"
proof -
  let ?st = "length_set (Num 200) (constructor (Num 100) None (fresh_source None))"
  have h1: "\<not> isTransmitting ?st" unfolding fresh_source_def by code_simp
  have h2: "bufferSize ?st = Num (of_nat 2)" unfolding fresh_source_def by code_simp
  have h3: "(1::nat) \<le> 2" by simp
  have h4: "priv_buffer ?st = []" unfolding fresh_source_def by code_simp
  show ?thesis
    using buffering_keeps_most_recent [OF h1 h2 h3 h4, of "[[1], [2], [3]]"] by simp
qed

text \<open>
  Claim C3 (code defect). The claim: whatever duration the caller sets (zero, negative, or
  shorter than one segment), the effective capacity is never below 1, so the store retains
  at least one segment after an arrival handled while buffering. The setter stores the
  quotient as it is and the handler only replaces a capacity \<open>\<le> 0\<close>: with a length of 50 ms
  and segments of 100 ms the capacity is 1/2, and the first arrival is evicted at once.
\<close>

theorem short_length_empties_store:
  "bufferSize (run (constructor (Num 100) None (fresh_source None))
      [SetLength (Num 50), Start (answers True) None None, SourceSegment 0 [1]]) = Num (1 / 2)
   \<and> priv_buffer (run (constructor (Num 100) None (fresh_source None))
      [SetLength (Num 50), Start (answers True) None None, SourceSegment 0 [1]]) = []"
  unfolding answers_def fresh_source_def by code_simp

text \<open>
  Claim C4 (code defect). The claim: when the source is acquired but the request to deliver
  segments fails, \<open>start\<close> returns false and leaves no listener on the handle. The code
  returns false after \<open>configureTimeshiftBuffer\<close> has attached both listeners, and detaches
  neither.
\<close>

theorem failed_start_keeps_listeners:
  "\<not> fst (start (answers False) None None (constructor (Num 100) None (fresh_source None)))
   \<and> listeners
        (handles
           (snd (start (answers False) None None
                   (constructor (Num 100) None (fresh_source None)))) 0)
     = [(''close'', CloseHandler 0), (''segment'', SegmentHandler)]"
  unfolding answers_def fresh_source_def by code_simp

text \<open>
  Claim C5. While transmitting, the arrival of a segment drains the store: after the handler
  the store is empty and exactly one "segment" event has been emitted, carrying the
  concatenation of everything stored before followed by the new segment; nothing is evicted.
\<close>

theorem transmitting_arrival_drains:
  assumes "isTransmitting st"
  shows "priv_buffer (segment_handler seg st) = []
         \<and> emitted (segment_handler seg st) = emitted st @ [concat (priv_buffer st) @ seg]
         \<and> isTransmitting (segment_handler seg st)"
  using assms
  by (simp add: segment_handler_def transmit_def isTransmitting_def Let_def)

theorem transmitting_arrival_drains_witness:
  "isTransmitting transmitting_session
   \<and> priv_buffer (segment_handler [2] transmitting_session) = []
   \<and> emitted (segment_handler [2] transmitting_session) = [[170, 1], [2]]"
proof -
  have h: "isTransmitting transmitting_session"
    unfolding transmitting_session_def answers_def fresh_source_def by code_simp
  have e: "emitted transmitting_session = [[170, 1]]"
    unfolding transmitting_session_def answers_def fresh_source_def by code_simp
  have b: "priv_buffer transmitting_session = []"
    unfolding transmitting_session_def answers_def fresh_source_def by code_simp
  show ?thesis
    using h transmitting_arrival_drains [OF h, of "[2]"] by (simp add: e b)
qed

text \<open>
  Claim C6. When the session is started and the initialization segment is unavailable, before
  and after the wait, \<open>transmitStart\<close> returns false, leaves the transmitting flag as it was,
  and calls the connection reset.
\<close>

theorem transmitStart_without_initSegment:
  assumes "isStarted st" and "current_initSegment st = None"
    and "initSegment_after_sleep env = None"
  shows "\<not> fst (transmitStart env st)
         \<and> isTransmitting (snd (transmitStart env st)) = isTransmitting st
         \<and> calls (snd (transmitStart env st)) = calls st @ [LogError, ResetNvrConnection]"
  using assms
  by (auto simp: transmitStart_def getInitSegment_def current_initSegment_def
      isTransmitting_def Let_def split: option.splits)

theorem transmitStart_without_initSegment_witness:
  "isStarted started_without_init
   \<and> \<not> fst (transmitStart (answers True) started_without_init)
   \<and> \<not> isTransmitting (snd (transmitStart (answers True) started_without_init))
   \<and> last (calls (snd (transmitStart (answers True) started_without_init)))
       = ResetNvrConnection"
proof -
  have h1: "isStarted started_without_init"
    unfolding started_without_init_def answers_def fresh_source_def by code_simp
  have h2: "current_initSegment started_without_init = None"
    unfolding started_without_init_def answers_def fresh_source_def by code_simp
  have h3: "initSegment_after_sleep (answers True) = None"
    by (simp add: answers_def)
  have t: "\<not> isTransmitting started_without_init"
    unfolding started_without_init_def answers_def fresh_source_def by code_simp
  show ?thesis
    using h1 t transmitStart_without_initSegment [OF h1 h2 h3] by simp
qed

text \<open>
  Claim C7. The getter \<open>buffer\<close> and \<open>getLast\<close> return null exactly when the initialization
  segment is unknown or the store is empty; in particular they return null with a non-empty
  store whose initialization segment is unknown.
\<close>

theorem reads_null_iff:
  "(buffer st = None) = (current_initSegment st = None \<or> priv_buffer st = [])
   \<and> (getLast d st = None) = (current_initSegment st = None \<or> priv_buffer st = [])"
  by (auto simp: buffer_def getLast_def Let_def truthy_def array_length_def
      split: option.splits)

text \<open>
  Claim C8 (code defect, the one of claim C4). The claim: in every sequence of calls and
  source events, also with a start that fails partway, a \<open>stop\<close> followed by a \<open>start\<close>
  leaves no duplicate "segment" listener, so one arrival is appended once. After a start that
  failed at \<open>livestream.start\<close>, \<open>stop\<close> detaches nothing (the session is not started), the
  next \<open>start\<close> attaches the segment handler again, and one arrival is appended twice.
\<close>

theorem restart_after_failed_start_duplicates:
  "listeners_of ''segment''
     (handles
        (run (constructor (Num 100) None (fresh_source None))
           [SetLength (Num 500), Start (answers False) None None, Stop,
            Start (answers True) None None]) 0)
   = [SegmentHandler, SegmentHandler]
   \<and> priv_buffer
        (run (constructor (Num 100) None (fresh_source None))
           [SetLength (Num 500), Start (answers False) None None, Stop,
            Start (answers True) None None, SourceSegment 0 [1]])
     = [[1], [1]]"
  unfolding answers_def fresh_source_def by code_simp

text \<open>
  Claim C9. In every state \<open>stop\<close> returns true and leaves the buffer empty and the session
  not started, also when the session was not started.
\<close>

theorem stop_resets:
  "fst (stop st) \<and> priv_buffer (snd (stop st)) = [] \<and> \<not> isStarted (snd (stop st))"
  by (simp add: stop_def isStarted_def Let_def)




end
